theory Spec2Isabelle
  imports Complex_Main
begin

section \<open>JavaScript numbers\<close>

text \<open>
  Every number of \<^verbatim>\<open>WorldCupTicketSimulator.jsx\<close> is a JavaScript Number. The model keeps
  the four kinds of value such a number can be: a finite value, the two infinities and
  NaN. Finite arithmetic is exact: a finite result is the real number the operation
  denotes, without the rounding of IEEE doubles and without underflow, and zero carries no
  sign (a division of a non-zero number by zero is read as a division by +0). Overflow to
  an infinity is kept where the program computes with the odds table (the reciprocals of
  the odds and what is derived from them, see \<open>ovf\<close> below); the amounts of money are
  computed without it. The inputs of the simulator come from numeric input fields and from
  persisted JSON, so they are finite and have type \<open>real\<close>; a derived value has type
  \<open>real\<close> where every operation producing it is finite on finite operands, and type
  \<open>jsnum\<close> where it can be infinite or NaN.

  Rounding can turn an equality or a comparison of two close values the other way. The
  statements about comparisons are therefore made on ranges of inputs that keep the
  compared values apart by far more than the relative error \<open>2\<^sup>-\<^sup>5\<^sup>3\<close> of an operation on
  doubles.
\<close>

datatype jsnum = Fin real | PInf | NInf | NaN

fun jneg :: "jsnum \<Rightarrow> jsnum" where
  "jneg (Fin a) = Fin (- a)"
| "jneg PInf = NInf"
| "jneg NInf = PInf"
| "jneg NaN = NaN"

fun jadd :: "jsnum \<Rightarrow> jsnum \<Rightarrow> jsnum" where
  "jadd (Fin a) (Fin b) = Fin (a + b)"
| "jadd NaN y = NaN"
| "jadd x NaN = NaN"
| "jadd PInf NInf = NaN"
| "jadd NInf PInf = NaN"
| "jadd PInf y = PInf"
| "jadd NInf y = NInf"
| "jadd x PInf = PInf"
| "jadd x NInf = NInf"

definition jsub :: "jsnum \<Rightarrow> jsnum \<Rightarrow> jsnum" where
  "jsub x y = jadd x (jneg y)"

text \<open>The sign of an infinity multiplied or divided by a finite number.\<close>

definition signed_inf :: "bool \<Rightarrow> jsnum" where
  "signed_inf pos = (if pos then PInf else NInf)"

fun jmul :: "jsnum \<Rightarrow> jsnum \<Rightarrow> jsnum" where
  "jmul (Fin a) (Fin b) = Fin (a * b)"
| "jmul NaN y = NaN"
| "jmul x NaN = NaN"
| "jmul PInf (Fin b) = (if b = 0 then NaN else signed_inf (0 < b))"
| "jmul NInf (Fin b) = (if b = 0 then NaN else signed_inf (b < 0))"
| "jmul (Fin a) PInf = (if a = 0 then NaN else signed_inf (0 < a))"
| "jmul (Fin a) NInf = (if a = 0 then NaN else signed_inf (a < 0))"
| "jmul PInf PInf = PInf"
| "jmul NInf NInf = PInf"
| "jmul PInf NInf = NInf"
| "jmul NInf PInf = NInf"

fun jdiv :: "jsnum \<Rightarrow> jsnum \<Rightarrow> jsnum" where
  "jdiv (Fin a) (Fin b) =
     (if b \<noteq> 0 then Fin (a / b)
      else if a = 0 then NaN else signed_inf (0 < a))"
| "jdiv NaN y = NaN"
| "jdiv x NaN = NaN"
| "jdiv (Fin a) PInf = Fin 0"
| "jdiv (Fin a) NInf = Fin 0"
| "jdiv PInf (Fin b) = signed_inf (0 \<le> b)"
| "jdiv NInf (Fin b) = signed_inf (b < 0)"
| "jdiv PInf y = NaN"
| "jdiv NInf y = NaN"

fun jabs :: "jsnum \<Rightarrow> jsnum" where
  "jabs (Fin a) = Fin \<bar>a\<bar>"
| "jabs PInf = PInf"
| "jabs NInf = PInf"
| "jabs NaN = NaN"

text \<open>Comparisons: every comparison with NaN is false.\<close>

fun jlt :: "jsnum \<Rightarrow> jsnum \<Rightarrow> bool" where
  "jlt (Fin a) (Fin b) = (a < b)"
| "jlt NaN y = False"
| "jlt x NaN = False"
| "jlt PInf y = False"
| "jlt x NInf = False"
| "jlt x PInf = True"
| "jlt NInf y = True"

definition jgt :: "jsnum \<Rightarrow> jsnum \<Rightarrow> bool" where
  "jgt x y = jlt y x"

fun jle :: "jsnum \<Rightarrow> jsnum \<Rightarrow> bool" where
  "jle (Fin a) (Fin b) = (a \<le> b)"
| "jle NaN y = False"
| "jle x NaN = False"
| "jle NInf y = True"
| "jle x PInf = True"
| "jle PInf y = False"
| "jle x NInf = False"

text \<open>
  The exponentiation operator \<^verbatim>\<open>**\<close> with a finite exponent (every exponent of the
  program is a month count or a fraction of a year). A zero exponent gives 1 whatever
  the base, NaN included; a negative base with a fractional exponent gives NaN.
\<close>

definition is_integer :: "real \<Rightarrow> bool" where
  "is_integer e = (of_int \<lfloor>e\<rfloor> = e)"

definition odd_integer :: "real \<Rightarrow> bool" where
  "odd_integer e = (is_integer e \<and> odd \<lfloor>e\<rfloor>)"

fun jpow :: "jsnum \<Rightarrow> real \<Rightarrow> jsnum" where
  "jpow (Fin b) e =
     (if e = 0 then Fin 1
      else if 0 < b then Fin (b powr e)
      else if b = 0 then (if 0 < e then Fin 0 else PInf)
      else if is_integer e then Fin (if odd \<lfloor>e\<rfloor> then - (\<bar>b\<bar> powr e) else \<bar>b\<bar> powr e)
      else NaN)"
| "jpow NaN e = (if e = 0 then Fin 1 else NaN)"
| "jpow PInf e = (if e = 0 then Fin 1 else if 0 < e then PInf else Fin 0)"
| "jpow NInf e =
     (if e = 0 then Fin 1
      else if 0 < e then (if odd_integer e then NInf else PInf)
      else Fin 0)"

text \<open>
  Overflow. A double holds magnitudes below \<open>2\<^sup>1\<^sup>0\<^sup>2\<^sup>4\<close>; rounding to nearest turns a result of
  magnitude \<open>2\<^sup>1\<^sup>0\<^sup>2\<^sup>4 - 2\<^sup>9\<^sup>7\<^sup>0\<close> or more (half a unit in the last place above the largest
  double) into an infinity of the same sign. \<open>ovf\<close> is applied to the result of an
  operation that can overflow.
\<close>

definition overflow_threshold :: real where
  "overflow_threshold = 2 ^ 1024 - 2 ^ 970"

definition ovf :: "jsnum \<Rightarrow> jsnum" where
  "ovf x =
     (case x of
        Fin a \<Rightarrow> if overflow_threshold \<le> \<bar>a\<bar> then signed_inf (0 < a) else Fin a
      | _ \<Rightarrow> x)"


section \<open>Odds conversion helpers\<close>



section \<open>Inputs\<close>

text \<open>
  The keys of the odds and stake objects. \<open>Finals\<close> is not an outcome of the odds
  table: it is the stage name of the sixth scenario.
\<close>

datatype stage_key = Group | R32 | R16 | QF | SF | RunnerUp | Winner | Finals

definition STAGES :: "stage_key list" where
  "STAGES = [Group, R32, R16, QF, SF]"

definition ALL_OUTCOMES :: "stage_key list" where
  "ALL_OUTCOMES = STAGES @ [RunnerUp, Winner]"

text \<open>
  The state of the component that the calculations read. The odds format and the investor
  stake only affect what is displayed.
\<close>

record config =
  pricePerTicket :: real
  numTickets :: real
  resaleFeePercent :: real
  processingFeePercent :: real
  fixedTransactionCost :: real
  annualOpportunityCost :: real
  expectedResale :: real
  hedgeEnabled :: bool
  bettingOdds :: "stage_key \<Rightarrow> real"
  hedgeStakes :: "stage_key \<Rightarrow> real"

definition DEFAULTS :: config where
  "DEFAULTS = \<lparr>
     pricePerTicket = 4185, numTickets = 2,
     resaleFeePercent = 15, processingFeePercent = 3, fixedTransactionCost = 0,
     annualOpportunityCost = 6, expectedResale = 10000,
     hedgeEnabled = True,
     bettingOdds = (\<lambda>k. case k of Group \<Rightarrow> 31 | R32 \<Rightarrow> 43 / 10 | R16 \<Rightarrow> 4
                        | QF \<Rightarrow> 43 / 10 | SF \<Rightarrow> 55 / 10 | RunnerUp \<Rightarrow> 9 | Winner \<Rightarrow> 9
                        | Finals \<Rightarrow> 0),
     hedgeStakes = (\<lambda>k. case k of Group \<Rightarrow> 25 | R32 \<Rightarrow> 300 | R16 \<Rightarrow> 500
                        | QF \<Rightarrow> 1200 | SF \<Rightarrow> 3100 | _ \<Rightarrow> 0) \<rparr>"

text \<open>
  Timing: when each hedge is placed and when proceeds are received. The objects
  \<^verbatim>\<open>hedgeMonths\<close> and \<^verbatim>\<open>hedgeStakes\<close> only have the five stages as keys, and the program only
  reads them there; the value the functions below take at another key is never used.
\<close>

definition hedgeMonths :: "stage_key \<Rightarrow> real" where
  "hedgeMonths s = (case s of Group \<Rightarrow> 4 | R32 \<Rightarrow> 4 | R16 \<Rightarrow> 4 | QF \<Rightarrow> 5 | SF \<Rightarrow> 5 | _ \<Rightarrow> 0)"

definition proceedsMonth :: real where
  "proceedsMonth = 55 / 10"

section \<open>Derived probabilities from betting odds\<close>

text \<open>
  The odds are the one input that the program inverts: \<open>(1 / odds) * 100\<close> overflows for
  positive odds below about \<open>5.6 \<times> 10\<^sup>-\<^sup>3\<^sup>0\<^sup>7\<close>, and the total of the implied probabilities can
  overflow as well. A fair probability is a ratio of at most 1 times 100 and cannot.
\<close>

definition impliedProbs :: "config \<Rightarrow> stage_key \<Rightarrow> jsnum" where
  "impliedProbs c key =
     (if bettingOdds c key > 0
      then ovf (jmul (ovf (jdiv (Fin 1) (Fin (bettingOdds c key)))) (Fin 100))
      else Fin 0)"

definition totalImplied :: "config \<Rightarrow> jsnum" where
  "totalImplied c =
     foldl (\<lambda>total key. ovf (jadd total (impliedProbs c key))) (Fin 0) ALL_OUTCOMES"

definition margin :: "config \<Rightarrow> jsnum" where
  "margin c = jsub (totalImplied c) (Fin 100)"

definition fairProbs :: "config \<Rightarrow> stage_key \<Rightarrow> jsnum" where
  "fairProbs c key =
     (if jgt (totalImplied c) (Fin 0)
      then jmul (jdiv (impliedProbs c key) (totalImplied c)) (Fin 100)
      else Fin 0)"

definition elimProbs :: "config \<Rightarrow> stage_key \<Rightarrow> jsnum" where
  "elimProbs c s = fairProbs c s"

section \<open>Conditional probabilities and adjusted odds per stage\<close>

record stage_odds =
  condProb :: jsnum
  fairOdds :: jsnum
  adjustedOdds :: jsnum

definition vigFactor :: "config \<Rightarrow> jsnum" where
  "vigFactor c =
     (if jgt (totalImplied c) (Fin 0) then ovf (jdiv (Fin 100) (totalImplied c)) else Fin 1)"

text \<open>
  The loop over \<open>STAGES\<close>: \<open>cumProb\<close> is the loop's running total, \<open>data\<close> the object
  being filled.
\<close>

fun stageOdds_loop ::
  "config \<Rightarrow> jsnum \<Rightarrow> (stage_key \<rightharpoonup> stage_odds) \<Rightarrow> stage_key list \<Rightarrow> (stage_key \<rightharpoonup> stage_odds)"
where
  "stageOdds_loop c cumProb data [] = data"
| "stageOdds_loop c cumProb data (stage # rest) =
     (let survivalProb = jdiv (jsub (Fin 100) cumProb) (Fin 100);
          cp = (if jgt survivalProb (Fin 0)
                then jdiv (jdiv (elimProbs c stage) (Fin 100)) survivalProb
                else Fin 0);
          fo = (if jgt cp (Fin 0) then ovf (jdiv (Fin 1) cp) else PInf);
          ao = ovf (jmul fo (vigFactor c))
      in stageOdds_loop c (jadd cumProb (elimProbs c stage))
           (data(stage \<mapsto> \<lparr>condProb = cp, fairOdds = fo, adjustedOdds = ao\<rparr>)) rest)"

definition stageOdds :: "config \<Rightarrow> (stage_key \<rightharpoonup> stage_odds)" where
  "stageOdds c = stageOdds_loop c (Fin 0) Map.empty STAGES"

text \<open>\<^verbatim>\<open>stageOdds[stage]\<close>, read at a stage of \<open>STAGES\<close> (where the object has an entry).\<close>

definition stageOdds_at :: "config \<Rightarrow> stage_key \<Rightarrow> stage_odds" where
  "stageOdds_at c s = the (stageOdds c s)"

section \<open>Calculated values\<close>

definition totalPurchase :: "config \<Rightarrow> real" where
  "totalPurchase c = numTickets c * pricePerTicket c"

definition carryingCost :: "config \<Rightarrow> jsnum" where
  "carryingCost c =
     jmul (Fin (totalPurchase c))
       (jsub (jpow (Fin (1 + annualOpportunityCost c / 100)) (proceedsMonth / 12)) (Fin 1))"

definition probFinals :: "config \<Rightarrow> jsnum" where
  "probFinals c = jadd (fairProbs c RunnerUp) (fairProbs c Winner)"

section \<open>IRR solver\<close>

record cash_flow =
  month :: real
  amount :: jsnum

definition npv :: "cash_flow list \<Rightarrow> jsnum \<Rightarrow> jsnum" where
  "npv cashFlows r =
     foldl (\<lambda>sum cf. jadd sum (jdiv (amount cf) (jpow (jadd (Fin 1) r) (month cf))))
       (Fin 0) cashFlows"

definition dnpv :: "cash_flow list \<Rightarrow> jsnum \<Rightarrow> jsnum" where
  "dnpv cashFlows r =
     foldl (\<lambda>sum cf. jadd sum
         (jdiv (jmul (Fin (- month cf)) (amount cf)) (jpow (jadd (Fin 1) r) (month cf + 1))))
       (Fin 0) cashFlows"

definition annualize :: "jsnum \<Rightarrow> jsnum" where
  "annualize r = jmul (jsub (jpow (jadd (Fin 1) r) 12) (Fin 1)) (Fin 100)"

text \<open>
  The \<^verbatim>\<open>for\<close> loop of the solver; the third argument is the number of iterations left
  (\<open>maxIter - i\<close>). Leaving the loop, by \<^verbatim>\<open>break\<close> or by exhausting the iterations, goes
  to the final \<^verbatim>\<open>return\<close>, which annualizes the current rate.
\<close>

fun irr_loop :: "cash_flow list \<Rightarrow> real \<Rightarrow> nat \<Rightarrow> jsnum \<Rightarrow> jsnum" where
  "irr_loop cashFlows tol 0 r = annualize r"
| "irr_loop cashFlows tol (Suc n) r =
     (let f = npv cashFlows r;
          df = dnpv cashFlows r
      in if jlt (jabs df) (Fin (1 / 10 ^ 14)) then annualize r
         else let rNew = jsub r (jdiv f df)
              in if jlt (jabs (jsub rNew r)) (Fin tol) then annualize rNew
                 else if jle rNew (Fin (- 1)) then Fin (- 100)
                 else irr_loop cashFlows tol n rNew)"

definition calculateIRR_with :: "cash_flow list \<Rightarrow> nat \<Rightarrow> real \<Rightarrow> jsnum" where
  "calculateIRR_with cashFlows maxIter tol = irr_loop cashFlows tol maxIter (Fin (1 / 100))"

text \<open>The call with the default parameters \<^verbatim>\<open>maxIter = 100, tol = 1e-8\<close>.\<close>

definition calculateIRR :: "cash_flow list \<Rightarrow> jsnum" where
  "calculateIRR cashFlows = calculateIRR_with cashFlows 100 (1 / 10 ^ 8)"

section \<open>Carrying cost for hedge stakes\<close>

definition hedgeCarryCostPerStage :: "config \<Rightarrow> stage_key list \<Rightarrow> jsnum" where
  "hedgeCarryCostPerStage c stages =
     (if \<not> hedgeEnabled c then Fin 0
      else foldl (\<lambda>sum s.
             let carryPeriod = proceedsMonth - hedgeMonths s
             in jadd sum (jmul (Fin (hedgeStakes c s))
                  (jsub (jpow (Fin (1 + annualOpportunityCost c / 100)) (carryPeriod / 12))
                     (Fin 1))))
           (Fin 0) stages)"

text \<open>\<^verbatim>\<open>stages.reduce((sum, s) => sum + hedgeStakes[s], 0)\<close>\<close>

definition sumStakes :: "config \<Rightarrow> stage_key list \<Rightarrow> real" where
  "sumStakes c stages = foldl (\<lambda>sum s. sum + hedgeStakes c s) 0 stages"

section \<open>Hedge outflows grouped by month\<close>

text \<open>
  \<^verbatim>\<open>outflowByMonth\<close> is an object whose keys are months; \<^verbatim>\<open>Object.entries\<close> lists integer
  keys in ascending order, so the object is kept as an association list sorted by key.
  \<^verbatim>\<open>(outflowByMonth[m] || 0) + stake\<close> starts a missing month at 0.
\<close>

fun outflow_add :: "real \<Rightarrow> real \<Rightarrow> (real \<times> real) list \<Rightarrow> (real \<times> real) list" where
  "outflow_add m stake [] = [(m, 0 + stake)]"
| "outflow_add m stake ((k, amt) # rest) =
     (if m = k then (k, amt + stake) # rest
      else if m < k then (m, 0 + stake) # (k, amt) # rest
      else (k, amt) # outflow_add m stake rest)"

definition outflowByMonth :: "config \<Rightarrow> stage_key list \<Rightarrow> (real \<times> real) list" where
  "outflowByMonth c stages =
     foldl (\<lambda>obj s. outflow_add (hedgeMonths s) (hedgeStakes c s) obj) [] stages"

definition hedgeOutflows :: "config \<Rightarrow> stage_key list \<Rightarrow> cash_flow list" where
  "hedgeOutflows c stages =
     (if hedgeEnabled c
      then map (\<lambda>(m, amt). \<lparr>month = m, amount = Fin (- amt)\<rparr>) (outflowByMonth c stages)
      else [])"

section \<open>The six scenarios\<close>

record scenario =
  stage :: stage_key
  probability :: jsnum
  isFinals :: bool
  grossProceeds :: real
  netProceeds :: real
  resaleFee :: real
  processingFee :: real
  totalFees :: real
  hedgeResult :: jsnum
  hCarryCost :: jsnum
  totalStakePlaced :: real
  placedStages :: "stage_key list"
  netPL :: jsnum
  roi :: jsnum

subsection \<open>Elimination at stage \<open>STAGES[i]\<close>\<close>

definition winningStake :: "config \<Rightarrow> nat \<Rightarrow> real" where
  "winningStake c i = (if hedgeEnabled c then hedgeStakes c (STAGES ! i) else 0)"

definition winningOdds :: "config \<Rightarrow> nat \<Rightarrow> jsnum" where
  "winningOdds c i = adjustedOdds (stageOdds_at c (STAGES ! i))"

definition hedgeReturn :: "config \<Rightarrow> nat \<Rightarrow> jsnum" where
  "hedgeReturn c i = jmul (Fin (winningStake c i)) (winningOdds c i)"

definition lostStakes :: "config \<Rightarrow> nat \<Rightarrow> real" where
  "lostStakes c i = (if hedgeEnabled c then sumStakes c (take i STAGES) else 0)"

definition elim_cashFlows :: "config \<Rightarrow> nat \<Rightarrow> cash_flow list" where
  "elim_cashFlows c i =
     (let grossProceeds = pricePerTicket c * numTickets c
      in [\<lparr>month = 0, amount = Fin (- totalPurchase c)\<rparr>,
          \<lparr>month = proceedsMonth,
           amount = jadd (Fin grossProceeds) (if hedgeEnabled c then hedgeReturn c i else Fin 0)\<rparr>]
         @ hedgeOutflows c (take (i + 1) STAGES))"

definition elim_scenario :: "config \<Rightarrow> nat \<Rightarrow> scenario" where
  "elim_scenario c i =
     (let elimStage = STAGES ! i;
          placed = take (i + 1) STAGES;
          totalStake = (if hedgeEnabled c then sumStakes c placed else 0);
          hCarry = hedgeCarryCostPerStage c placed;
          hedgeRes =
            (if hedgeEnabled c
             then jsub (jmul (Fin (winningStake c i)) (jsub (winningOdds c i) (Fin 1)))
                    (Fin (lostStakes c i))
             else Fin 0);
          gross = pricePerTicket c * numTickets c
      in \<lparr>stage = elimStage,
          probability = elimProbs c elimStage,
          isFinals = False,
          grossProceeds = gross,
          netProceeds = gross,
          resaleFee = 0,
          processingFee = 0,
          totalFees = 0,
          hedgeResult = hedgeRes,
          hCarryCost = hCarry,
          totalStakePlaced = totalStake,
          placedStages = placed,
          netPL = jadd (jsub (jsub (Fin (gross - totalPurchase c)) (carryingCost c)) hCarry) hedgeRes,
          roi = calculateIRR (elim_cashFlows c i)\<rparr>)"

subsection \<open>Finals scenario: all hedges placed and lost\<close>

definition allStakes :: "config \<Rightarrow> real" where
  "allStakes c = (if hedgeEnabled c then sumStakes c STAGES else 0)"

definition hedgeResultFinals :: "config \<Rightarrow> real" where
  "hedgeResultFinals c = (if hedgeEnabled c then - allStakes c else 0)"

definition finals_netProceeds :: "config \<Rightarrow> real" where
  "finals_netProceeds c =
     (let gross = expectedResale c * numTickets c;
          rFee = gross * (resaleFeePercent c / 100);
          pFee = gross * (processingFeePercent c / 100);
          fees = rFee + pFee + fixedTransactionCost c
      in gross - fees)"

definition finals_cashFlows :: "config \<Rightarrow> cash_flow list" where
  "finals_cashFlows c =
     [\<lparr>month = 0, amount = Fin (- totalPurchase c)\<rparr>,
      \<lparr>month = proceedsMonth, amount = Fin (finals_netProceeds c)\<rparr>]
     @ hedgeOutflows c STAGES"

definition finals_scenario :: "config \<Rightarrow> scenario" where
  "finals_scenario c =
     (let hCarryCostFinals = hedgeCarryCostPerStage c STAGES;
          gross = expectedResale c * numTickets c;
          rFee = gross * (resaleFeePercent c / 100);
          pFee = gross * (processingFeePercent c / 100);
          fees = rFee + pFee + fixedTransactionCost c;
          net = gross - fees
      in \<lparr>stage = Finals,
          probability = probFinals c,
          isFinals = True,
          grossProceeds = gross,
          netProceeds = net,
          resaleFee = rFee,
          processingFee = pFee,
          totalFees = fees,
          hedgeResult = Fin (hedgeResultFinals c),
          hCarryCost = hCarryCostFinals,
          totalStakePlaced = allStakes c,
          placedStages = STAGES,
          netPL = jadd (jsub (jsub (Fin (net - totalPurchase c)) (carryingCost c)) hCarryCostFinals)
                    (Fin (hedgeResultFinals c)),
          roi = calculateIRR (finals_cashFlows c)\<rparr>)"

definition scenarios :: "config \<Rightarrow> scenario list" where
  "scenarios c = map (elim_scenario c) [0 ..< length STAGES] @ [finals_scenario c]"

text \<open>
  The cash-flow timeline handed to the solver for the scenario at position \<open>i\<close> of
  \<open>scenarios\<close>.
\<close>

definition scenario_cashFlows :: "config \<Rightarrow> nat \<Rightarrow> cash_flow list" where
  "scenario_cashFlows c i = (if i < length STAGES then elim_cashFlows c i else finals_cashFlows c)"

section \<open>Breakeven\<close>

definition netFeeRate :: "config \<Rightarrow> real" where
  "netFeeRate c = 1 - (resaleFeePercent c / 100) - (processingFeePercent c / 100)"

definition targetNet :: "config \<Rightarrow> jsnum" where
  "targetNet c =
     jsub (jadd (jadd (Fin (totalPurchase c)) (carryingCost c)) (hedgeCarryCostPerStage c STAGES))
       (Fin (hedgeResultFinals c))"

definition breakEvenResale :: "config \<Rightarrow> jsnum" where
  "breakEvenResale c =
     jdiv (jadd (targetNet c) (Fin (fixedTransactionCost c))) (Fin (numTickets c * netFeeRate c))"

section \<open>Sensitivity: Finals P&L vs resale price\<close>

record sens_point =
  price :: real
  finals :: jsnum
  expectedValue :: jsnum

definition elimPL :: "config \<Rightarrow> jsnum" where
  "elimPL c =
     foldl (\<lambda>sum s. jadd sum (jmul (jdiv (probability s) (Fin 100)) (netPL s))) (Fin 0)
       (filter (\<lambda>s. \<not> isFinals s) (scenarios c))"

definition sens_point_at :: "config \<Rightarrow> real \<Rightarrow> sens_point" where
  "sens_point_at c p =
     (let pFinals = jdiv (probFinals c) (Fin 100);
          hcc = hedgeCarryCostPerStage c STAGES;
          gross = p * numTickets c;
          np = gross * netFeeRate c - fixedTransactionCost c;
          finalsPL = jadd (jsub (jsub (Fin (np - totalPurchase c)) (carryingCost c)) hcc)
                       (Fin (hedgeResultFinals c));
          ev = jadd (jmul pFinals finalsPL) (elimPL c)
      in \<lparr>price = p, finals = finalsPL, expectedValue = ev\<rparr>)"

text \<open>\<^verbatim>\<open>for (let price = 2000; price <= 30000; price += 500)\<close>: the prices visited.\<close>

function sweep :: "int \<Rightarrow> int list" where
  "sweep p = (if p \<le> 30000 then p # sweep (p + 500) else [])"
  by pat_completeness auto
termination
  by (relation "measure (\<lambda>p. nat (30500 - p))") auto

declare sweep.simps [simp del]

definition sensitivityData :: "config \<Rightarrow> sens_point list" where
  "sensitivityData c = map (\<lambda>p. sens_point_at c (of_int p)) (sweep 2000)"

section \<open>The scenario formula of the specification\<close>

text \<open>
  The net result of the elimination scenario at stage \<open>k\<close> as the specification words it:
  reimbursement, minus purchase cost, minus base carrying cost, minus the carrying cost of
  the hedges placed up to and including stage \<open>k\<close>, plus a hedge result that is the winning
  payout \<open>stake\<^sub>k \<times> adjustedOdds\<^sub>k\<close> minus the stakes of the stages before \<open>k\<close>.
\<close>

definition spec_hedgeResult :: "config \<Rightarrow> nat \<Rightarrow> jsnum" where
  "spec_hedgeResult c k =
     jsub (jmul (Fin (hedgeStakes c (STAGES ! k))) (adjustedOdds (stageOdds_at c (STAGES ! k))))
       (Fin (sum_list (map (hedgeStakes c) (take k STAGES))))"

definition spec_elim_netPL :: "config \<Rightarrow> nat \<Rightarrow> jsnum" where
  "spec_elim_netPL c k =
     jadd (jsub (jsub (jsub (Fin (pricePerTicket c * numTickets c)) (Fin (totalPurchase c)))
                   (carryingCost c))
             (hedgeCarryCostPerStage c (take (Suc k) STAGES)))
       (spec_hedgeResult c k)"

section \<open>Sums and tolerances\<close>

text \<open>
  The sum of a list of numbers, and a number lying within a tolerance of a target: an
  infinity or NaN lies within no tolerance.
\<close>

definition js_sum :: "jsnum list \<Rightarrow> jsnum" where
  "js_sum xs = foldl jadd (Fin 0) xs"

definition within_tol :: "real \<Rightarrow> real \<Rightarrow> jsnum \<Rightarrow> bool" where
  "within_tol tol target x = (case x of Fin a \<Rightarrow> \<bar>a - target\<bar> \<le> tol | _ \<Rightarrow> False)"

section \<open>The probability model without overflow\<close>

text \<open>
  The implied and fair probabilities as real numbers: the values of \<open>impliedProbs\<close>,
  \<open>totalImplied\<close> and \<open>fairProbs\<close> when nothing overflows, which is shown below for odds
  that are at least 1 or not positive.
\<close>

definition impliedProbs_exact :: "config \<Rightarrow> stage_key \<Rightarrow> real" where
  "impliedProbs_exact c key =
     (if bettingOdds c key > 0 then (1 / bettingOdds c key) * 100 else 0)"

definition totalImplied_exact :: "config \<Rightarrow> real" where
  "totalImplied_exact c = sum_list (map (impliedProbs_exact c) ALL_OUTCOMES)"

definition fairProbs_exact :: "config \<Rightarrow> stage_key \<Rightarrow> real" where
  "fairProbs_exact c key =
     (if totalImplied_exact c > 0
      then (impliedProbs_exact c key / totalImplied_exact c) * 100 else 0)"

text \<open>Odds that cannot overflow: each is at least 1, or not positive (and then skipped).\<close>

definition odds_safe :: "config \<Rightarrow> bool" where
  "odds_safe c = list_all (\<lambda>k. bettingOdds c k \<le> 0 \<or> 1 \<le> bettingOdds c k) ALL_OUTCOMES"

text \<open>A valid odds set: all seven decimal odds are greater than 1.\<close>

definition valid_odds :: "config \<Rightarrow> bool" where
  "valid_odds c = list_all (\<lambda>k. 1 < bettingOdds c k) ALL_OUTCOMES"

text \<open>Valid odds of at most a million to one.\<close>

definition moderate_odds :: "config \<Rightarrow> bool" where
  "moderate_odds c =
     list_all (\<lambda>k. 1 < bettingOdds c k \<and> bettingOdds c k \<le> 10 ^ 6) ALL_OUTCOMES"

text \<open>
  Amounts of ordinary size: no input of the money computations exceeds \<open>10\<^sup>9\<close> in
  magnitude, so that no product or power of them overflows.
\<close>

definition bounded_amounts :: "config \<Rightarrow> bool" where
  "bounded_amounts c =
     (\<bar>pricePerTicket c\<bar> \<le> 10 ^ 9 \<and> \<bar>numTickets c\<bar> \<le> 10 ^ 9
      \<and> \<bar>fixedTransactionCost c\<bar> \<le> 10 ^ 9 \<and> \<bar>annualOpportunityCost c\<bar> \<le> 10 ^ 9
      \<and> list_all (\<lambda>s. \<bar>hedgeStakes c s\<bar> \<le> 10 ^ 9) STAGES)"

text \<open>
  A purchase with nothing negative in it: at least one ticket, at a price of at least a
  cent, and no negative fixed cost, opportunity-cost rate or stake.
\<close>
definition ordinary_purchase :: "config \<Rightarrow> bool" where
  "ordinary_purchase c =
     (1 \<le> numTickets c \<and> 1 / 100 \<le> pricePerTicket c \<and> 0 \<le> fixedTransactionCost c
      \<and> 0 \<le> annualOpportunityCost c \<and> list_all (\<lambda>s. 0 \<le> hedgeStakes c s) STAGES)"

section \<open>Concrete inputs\<close>

text \<open>The defaults with no opportunity cost.\<close>

definition cfg_no_interest :: config where
  "cfg_no_interest = DEFAULTS\<lparr>annualOpportunityCost := 0\<rparr>"

text \<open>Fees of 60% and 50%, 110% in total, with no opportunity cost.\<close>

definition cfg_fees_110 :: config where
  "cfg_fees_110 =
     DEFAULTS\<lparr>resaleFeePercent := 60, processingFeePercent := 50, annualOpportunityCost := 0\<rparr>"

text \<open>The defaults, at 6% opportunity cost, with fees of 110% in total.\<close>

definition cfg_fees_110_interest :: config where
  "cfg_fees_110_interest = DEFAULTS\<lparr>resaleFeePercent := 60, processingFeePercent := 50\<rparr>"

text \<open>
  The default odds with odds of \<open>2\<^sup>-\<^sup>1\<^sup>0\<^sup>2\<^sup>0\<close> for the group stage: a positive number, whose
  reciprocal \<open>2\<^sup>1\<^sup>0\<^sup>2\<^sup>0\<close> is a double and whose implied probability \<open>100 \<times> 2\<^sup>1\<^sup>0\<^sup>2\<^sup>0\<close> is not.
\<close>

definition cfg_tiny_group_odds :: config where
  "cfg_tiny_group_odds =
     DEFAULTS\<lparr>bettingOdds := (bettingOdds DEFAULTS)(Group := 1 / 2 ^ 1020)\<rparr>"

text \<open>An odds table of zeros: no outcome has an implied probability.\<close>

definition cfg_zero_odds :: config where
  "cfg_zero_odds = DEFAULTS\<lparr>bettingOdds := (\<lambda>k. 0)\<rparr>"

text \<open>
  Even odds of going out in the group stage and odds of 12 for each of the six other
  outcomes: the implied probabilities are 50 and six times 100/12, 100 in total.
\<close>

definition cfg_group_favourite :: config where
  "cfg_group_favourite = DEFAULTS\<lparr>bettingOdds := (\<lambda>k. if k = Group then 2 else 12)\<rparr>"

text \<open>The defaults with hedging switched off.\<close>

definition cfg_no_hedge :: config where
  "cfg_no_hedge = DEFAULTS\<lparr>hedgeEnabled := False\<rparr>"

text \<open>A purchase of 1000 with no inflow.\<close>

definition single_outflow :: "cash_flow list" where
  "single_outflow = [\<lparr>month = 0, amount = Fin (- 1000)\<rparr>]"

section \<open>Arithmetic of JavaScript numbers\<close>

lemma jadd_zero_right: "jadd x (Fin 0) = x"
  by (cases x) simp_all

lemma jsub_zero_right: "jsub x (Fin 0) = x"
  by (cases x) (simp_all add: jsub_def)

lemma jsub_Fin: "jsub (Fin a) (Fin b) = Fin (a - b)"
  by (simp add: jsub_def)

lemma jdiv_Fin_nonzero: "b \<noteq> 0 \<Longrightarrow> jdiv (Fin a) (Fin b) = Fin (a / b)"
  by simp

lemma jpow_nonneg_base: "0 \<le> b \<Longrightarrow> 0 < e \<Longrightarrow> jpow (Fin b) e = Fin (b powr e)"
  by simp

lemma foldl_jadd_Fin:
  "foldl (\<lambda>sum s. jadd sum (Fin (g s))) (Fin a) xs = Fin (a + sum_list (map g xs))"
  by (induction xs arbitrary: a) (simp_all add: add.assoc)

text \<open>
  A bet's net profit \<open>w \<times> (odds - 1)\<close> less the stakes lost before is its payout
  \<open>w \<times> odds\<close> less those stakes and its own stake, whether the odds are finite or not.
\<close>

lemma net_profit_as_payout:
  "jsub (jmul (Fin w) (jsub odds (Fin 1))) (Fin l) = jsub (jmul (Fin w) odds) (Fin (l + w))"
  by (cases odds) (simp_all add: jsub_def signed_inf_def algebra_simps)

lemma foldl_add_sum_list: "foldl (\<lambda>sum s. sum + f s) a xs = a + sum_list (map f xs)"
  for a :: real
  by (induction xs arbitrary: a) auto

lemma sum_take_Suc:
  "k < length xs \<Longrightarrow> sum_list (map f (take (Suc k) xs)) = sum_list (map f (take k xs)) + f (xs ! k)"
  for f :: "'a \<Rightarrow> real"
  by (simp add: take_Suc_conv_app_nth)

lemma frac_less_real:
  fixes a b s t :: real
  assumes "0 < a" "a \<le> b" "0 < t" "t < s"
  shows "a / s < b / t"
proof -
  have "a / s < a / t" using assms by (simp add: frac_less2)
  also have "\<dots> \<le> b / t" using assms by (simp add: divide_right_mono)
  finally show ?thesis .
qed

lemma frac_less_real_100:
  fixes a b t :: real
  assumes "0 < a" "a \<le> b" "0 < t" "t < 100"
  shows "a < b * 100 / t"
  using frac_less_real [OF assms] by simp


lemma js_sum_Fin: "js_sum (map Fin xs) = Fin (sum_list xs)"
proof -
  have "foldl jadd (Fin a) (map Fin xs) = Fin (a + sum_list xs)" for a
    by (induction xs arbitrary: a) (simp_all add: add.assoc)
  then show ?thesis by (simp add: js_sum_def)
qed

section \<open>Overflow\<close>

lemma overflow_threshold_large: "1000 < overflow_threshold"
  by (simp add: overflow_threshold_def)

lemma ovf_Fin: "\<bar>a\<bar> \<le> 1000 \<Longrightarrow> ovf (Fin a) = Fin a"
  using overflow_threshold_large by (simp add: ovf_def)

lemma ovf_infinite [simp]: "ovf PInf = PInf" "ovf NInf = NInf" "ovf NaN = NaN"
  by (simp_all add: ovf_def)

section \<open>Fair probabilities\<close>

lemma list_all_outcomes:
  "list_all P ALL_OUTCOMES =
     (P Group \<and> P R32 \<and> P R16 \<and> P QF \<and> P SF \<and> P RunnerUp \<and> P Winner)"
  by (simp add: ALL_OUTCOMES_def STAGES_def)

lemma valid_odds_safe: "valid_odds c \<Longrightarrow> odds_safe c"
  by (auto simp: valid_odds_def odds_safe_def list_all_iff)

lemma moderate_odds_valid: "moderate_odds c \<Longrightarrow> valid_odds c"
  by (auto simp: valid_odds_def moderate_odds_def list_all_iff)

lemma valid_odds_pos: "valid_odds c \<Longrightarrow> k \<in> set ALL_OUTCOMES \<Longrightarrow> 0 < bettingOdds c k"
  by (force simp: valid_odds_def list_all_iff)

lemma impliedProbs_exact_nonneg: "0 \<le> impliedProbs_exact c k"
  by (simp add: impliedProbs_exact_def)

lemma impliedProbs_exact_pos: "0 < bettingOdds c k \<Longrightarrow> 0 < impliedProbs_exact c k"
  by (simp add: impliedProbs_exact_def)

lemma impliedProbs_exact_le_100:
  assumes "bettingOdds c k \<le> 0 \<or> 1 \<le> bettingOdds c k"
  shows "impliedProbs_exact c k \<le> 100"
  using assms by (auto simp: impliedProbs_exact_def field_simps)

lemma impliedProbs_no_overflow:
  assumes "bettingOdds c k \<le> 0 \<or> 1 \<le> bettingOdds c k"
  shows "impliedProbs c k = Fin (impliedProbs_exact c k)"
proof (cases "0 < bettingOdds c k")
  case False
  then show ?thesis by (simp add: impliedProbs_def impliedProbs_exact_def)
next
  case True
  with assms have o: "1 \<le> bettingOdds c k" by simp
  then have r: "\<bar>1 / bettingOdds c k\<bar> \<le> 1000" "\<bar>1 / bettingOdds c k * 100\<bar> \<le> 1000"
    by (simp_all add: field_simps)
  have d: "jdiv (Fin 1) (Fin (bettingOdds c k)) = Fin (1 / bettingOdds c k)"
    using True by simp
  show ?thesis
    by (simp only: impliedProbs_def impliedProbs_exact_def True if_True d jmul.simps
        ovf_Fin [OF r(1)] ovf_Fin [OF r(2)])
qed

lemma totalImplied_exact_unfold:
  "totalImplied_exact c = impliedProbs_exact c Group + impliedProbs_exact c R32
     + impliedProbs_exact c R16 + impliedProbs_exact c QF + impliedProbs_exact c SF
     + impliedProbs_exact c RunnerUp + impliedProbs_exact c Winner"
  by (simp add: totalImplied_exact_def ALL_OUTCOMES_def STAGES_def)

lemma totalImplied_no_overflow:
  assumes "odds_safe c"
  shows "totalImplied c = Fin (totalImplied_exact c)"
proof -
  have s: "bettingOdds c k \<le> 0 \<or> 1 \<le> bettingOdds c k" if "k \<in> set ALL_OUTCOMES" for k
    using assms that by (simp add: odds_safe_def list_all_iff)
  have k: "Group \<in> set ALL_OUTCOMES" "R32 \<in> set ALL_OUTCOMES" "R16 \<in> set ALL_OUTCOMES"
    "QF \<in> set ALL_OUTCOMES" "SF \<in> set ALL_OUTCOMES" "RunnerUp \<in> set ALL_OUTCOMES"
    "Winner \<in> set ALL_OUTCOMES"
    by (simp_all add: ALL_OUTCOMES_def STAGES_def)
  note e = k [THEN s, THEN impliedProbs_no_overflow]
  note u = k [THEN s, THEN impliedProbs_exact_le_100]
  note l = impliedProbs_exact_nonneg [of c Group] impliedProbs_exact_nonneg [of c R32]
    impliedProbs_exact_nonneg [of c R16] impliedProbs_exact_nonneg [of c QF]
    impliedProbs_exact_nonneg [of c SF] impliedProbs_exact_nonneg [of c RunnerUp]
    impliedProbs_exact_nonneg [of c Winner]
  show ?thesis
    using u l
    by (simp add: totalImplied_def ALL_OUTCOMES_def STAGES_def e ovf_Fin totalImplied_exact_unfold)
qed

lemma fairProbs_no_overflow:
  assumes "odds_safe c" "k \<in> set ALL_OUTCOMES"
  shows "fairProbs c k = Fin (fairProbs_exact c k)"
proof -
  have "bettingOdds c k \<le> 0 \<or> 1 \<le> bettingOdds c k"
    using assms by (simp add: odds_safe_def list_all_iff)
  then have i: "impliedProbs c k = Fin (impliedProbs_exact c k)"
    by (rule impliedProbs_no_overflow)
  show ?thesis
    by (simp add: fairProbs_def fairProbs_exact_def totalImplied_no_overflow [OF assms(1)] i jgt_def)
qed

lemma fairProbs_exact_nonneg: "0 \<le> fairProbs_exact c k"
  by (simp add: fairProbs_exact_def impliedProbs_exact_nonneg)

lemma totalImplied_exact_pos:
  assumes "valid_odds c"
  shows "0 < totalImplied_exact c"
proof -
  have "0 < impliedProbs_exact c Group"
    using valid_odds_pos [OF assms, of Group]
    by (simp add: impliedProbs_exact_pos ALL_OUTCOMES_def STAGES_def)
  then show ?thesis
    unfolding totalImplied_exact_unfold
    using impliedProbs_exact_nonneg [of c R32] impliedProbs_exact_nonneg [of c R16]
      impliedProbs_exact_nonneg [of c QF] impliedProbs_exact_nonneg [of c SF]
      impliedProbs_exact_nonneg [of c RunnerUp] impliedProbs_exact_nonneg [of c Winner]
    by linarith
qed

lemma sum_list_fairProbs_exact:
  assumes "0 < totalImplied_exact c"
  shows "sum_list (map (fairProbs_exact c) ALL_OUTCOMES) = 100"
proof -
  have "fairProbs_exact c = (\<lambda>k. impliedProbs_exact c k * (100 / totalImplied_exact c))"
    using assms by (auto simp: fairProbs_exact_def)
  then have "sum_list (map (fairProbs_exact c) ALL_OUTCOMES)
      = sum_list (map (\<lambda>k. impliedProbs_exact c k * (100 / totalImplied_exact c)) ALL_OUTCOMES)"
    by simp
  also have "\<dots> = sum_list (map (impliedProbs_exact c) ALL_OUTCOMES) * (100 / totalImplied_exact c)"
    by (rule sum_list_mult_const)
  also have "\<dots> = 100"
    using assms by (simp add: totalImplied_exact_def [symmetric])
  finally show ?thesis .
qed

lemma fairProbs_exact_unfold_sum:
  "sum_list (map (fairProbs_exact c) ALL_OUTCOMES) = fairProbs_exact c Group + fairProbs_exact c R32
     + fairProbs_exact c R16 + fairProbs_exact c QF + fairProbs_exact c SF
     + fairProbs_exact c RunnerUp + fairProbs_exact c Winner"
  by (simp add: ALL_OUTCOMES_def STAGES_def)

lemma fairProbs_exact_pos:
  assumes "valid_odds c" "k \<in> set ALL_OUTCOMES"
  shows "0 < fairProbs_exact c k"
  using valid_odds_pos [OF assms] totalImplied_exact_pos [OF assms(1)]
  by (simp add: fairProbs_exact_def impliedProbs_exact_pos)

lemma fairProbs_exact_mono_odds:
  assumes "valid_odds c"
    and "i \<in> set ALL_OUTCOMES" "j \<in> set ALL_OUTCOMES"
    and "bettingOdds c j \<le> bettingOdds c i"
  shows "fairProbs_exact c i \<le> fairProbs_exact c j"
proof -
  have T: "0 < totalImplied_exact c" by (rule totalImplied_exact_pos [OF assms(1)])
  have p: "0 < bettingOdds c i" "0 < bettingOdds c j"
    using valid_odds_pos [OF assms(1)] assms(2,3) by auto
  then have "impliedProbs_exact c i \<le> impliedProbs_exact c j"
    using assms(4) by (simp add: impliedProbs_exact_def frac_le)
  then show ?thesis using T by (simp add: fairProbs_exact_def divide_right_mono)
qed

lemma map_fairProbs_no_overflow:
  assumes "odds_safe c"
  shows "map (fairProbs c) ALL_OUTCOMES = map Fin (map (fairProbs_exact c) ALL_OUTCOMES)"
  using fairProbs_no_overflow [OF assms] by simp

lemma valid_odds_DEFAULTS: "valid_odds DEFAULTS"
  by (simp add: valid_odds_def ALL_OUTCOMES_def STAGES_def DEFAULTS_def)

text \<open>
  Claim C6, as amended. For every valid odds set, one whose seven decimal odds are all
  greater than 1, the total implied probability is positive and the fair probabilities of
  the seven outcomes sum to 100 within \<open>10\<^sup>-\<^sup>9\<close>.
\<close>

theorem fair_probabilities_sum:
  assumes "valid_odds c"
  shows "jgt (totalImplied c) (Fin 0)
    \<and> within_tol (1 / 10 ^ 9) 100 (js_sum (map (fairProbs c) ALL_OUTCOMES))"
proof -
  have s: "odds_safe c" by (rule valid_odds_safe [OF assms])
  have T: "0 < totalImplied_exact c" by (rule totalImplied_exact_pos [OF assms])
  have "js_sum (map (fairProbs c) ALL_OUTCOMES) = Fin 100"
    by (simp only: map_fairProbs_no_overflow [OF s] js_sum_Fin sum_list_fairProbs_exact [OF T])
  then show ?thesis
    using T by (simp add: within_tol_def totalImplied_no_overflow [OF s] jgt_def)
qed

text \<open>The default odds are valid, and their fair probabilities sum to 100.\<close>

theorem fair_probabilities_sum_witness:
  "valid_odds DEFAULTS
   \<and> jgt (totalImplied DEFAULTS) (Fin 0)
   \<and> within_tol (1 / 10 ^ 9) 100 (js_sum (map (fairProbs DEFAULTS) ALL_OUTCOMES))"
  using fair_probabilities_sum [OF valid_odds_DEFAULTS] valid_odds_DEFAULTS by simp

lemma impliedProbs_tiny_group: "impliedProbs cfg_tiny_group_odds Group = PInf"
  by (simp add: impliedProbs_def cfg_tiny_group_odds_def ovf_def overflow_threshold_def
      signed_inf_def)

lemma impliedProbs_tiny_others:
  "k \<noteq> Group \<Longrightarrow>
     impliedProbs cfg_tiny_group_odds k = Fin (impliedProbs_exact DEFAULTS k)
     \<and> \<bar>impliedProbs_exact DEFAULTS k\<bar> \<le> 1000"
  by (cases k)
    (simp_all add: impliedProbs_def impliedProbs_exact_def cfg_tiny_group_odds_def DEFAULTS_def
      ovf_Fin)

lemma totalImplied_tiny: "totalImplied cfg_tiny_group_odds = PInf"
  by (simp add: totalImplied_def ALL_OUTCOMES_def STAGES_def impliedProbs_tiny_group
      impliedProbs_tiny_others)

text \<open>
  Claim C6 as stated, for every odds set with a positive total implied probability, fails
  when an implied probability overflows. With odds of \<open>2\<^sup>-\<^sup>1\<^sup>0\<^sup>2\<^sup>0\<close> for the group stage,
  \<open>1 / odds = 2\<^sup>1\<^sup>0\<^sup>2\<^sup>0\<close> and \<open>2\<^sup>1\<^sup>0\<^sup>2\<^sup>0 \<times> 100\<close> is infinite; the total is infinite and so
  greater than 0; the fair probability of the group stage is \<open>\<infinity> / \<infinity> \<times> 100\<close>, which is
  NaN, the others are \<open>x / \<infinity> \<times> 100 = 0\<close>, and the sum is NaN.
\<close>

theorem fair_probabilities_counterexample:
  "jgt (totalImplied cfg_tiny_group_odds) (Fin 0)
   \<and> fairProbs cfg_tiny_group_odds Group = NaN
   \<and> js_sum (map (fairProbs cfg_tiny_group_odds) ALL_OUTCOMES) = NaN
   \<and> \<not> within_tol (1 / 10 ^ 9) 100 (js_sum (map (fairProbs cfg_tiny_group_odds) ALL_OUTCOMES))"
proof -
  have g: "fairProbs cfg_tiny_group_odds Group = NaN"
    by (simp add: fairProbs_def totalImplied_tiny impliedProbs_tiny_group jgt_def)
  then have "js_sum (map (fairProbs cfg_tiny_group_odds) ALL_OUTCOMES) = NaN"
    by (simp add: js_sum_def ALL_OUTCOMES_def STAGES_def)
  then show ?thesis using g by (simp add: within_tol_def totalImplied_tiny jgt_def)
qed

section \<open>Conditional elimination probabilities\<close>

text \<open>The object built by the stage loop has an entry at each of the five stages.\<close>

lemma stageOdds_defined: "s \<in> set STAGES \<Longrightarrow> stageOdds c s \<noteq> None"
  by (auto simp: stageOdds_def STAGES_def Let_def)

lemma elimProbs_no_overflow:
  assumes "odds_safe c"
  shows "elimProbs c Group = Fin (fairProbs_exact c Group)"
    "elimProbs c R32 = Fin (fairProbs_exact c R32)"
    "elimProbs c R16 = Fin (fairProbs_exact c R16)"
    "elimProbs c QF = Fin (fairProbs_exact c QF)"
    "elimProbs c SF = Fin (fairProbs_exact c SF)"
  by (simp_all add: elimProbs_def fairProbs_no_overflow [OF assms] ALL_OUTCOMES_def STAGES_def)

lemma condProb_Group:
  assumes "odds_safe c"
  shows "condProb (stageOdds_at c Group) = Fin (fairProbs_exact c Group / 100)"
  by (simp add: stageOdds_at_def stageOdds_def STAGES_def Let_def jgt_def jsub_Fin
      elimProbs_no_overflow [OF assms])

lemma condProb_R32:
  assumes "odds_safe c"
  shows "condProb (stageOdds_at c R32) =
     (if fairProbs_exact c Group < 100
      then Fin (fairProbs_exact c R32 / (100 - fairProbs_exact c Group)) else Fin 0)"
  by (simp add: stageOdds_at_def stageOdds_def STAGES_def Let_def jgt_def jsub_Fin
      elimProbs_no_overflow [OF assms])

lemma condProb_R16:
  assumes "odds_safe c"
  shows "condProb (stageOdds_at c R16) =
     (if fairProbs_exact c Group + fairProbs_exact c R32 < 100
      then Fin (fairProbs_exact c R16 / (100 - (fairProbs_exact c Group + fairProbs_exact c R32)))
      else Fin 0)"
  by (simp add: stageOdds_at_def stageOdds_def STAGES_def Let_def jgt_def jsub_Fin
      elimProbs_no_overflow [OF assms])

lemma condProb_QF:
  assumes "odds_safe c"
  shows "condProb (stageOdds_at c QF) =
     (if fairProbs_exact c Group + fairProbs_exact c R32 + fairProbs_exact c R16 < 100
      then Fin (fairProbs_exact c QF
             / (100 - (fairProbs_exact c Group + fairProbs_exact c R32 + fairProbs_exact c R16)))
      else Fin 0)"
  by (simp add: stageOdds_at_def stageOdds_def STAGES_def Let_def jgt_def jsub_Fin
      elimProbs_no_overflow [OF assms])

lemma condProb_SF:
  assumes "odds_safe c"
  shows "condProb (stageOdds_at c SF) =
     (if fairProbs_exact c Group + fairProbs_exact c R32 + fairProbs_exact c R16
         + fairProbs_exact c QF < 100
      then Fin (fairProbs_exact c SF
             / (100 - (fairProbs_exact c Group + fairProbs_exact c R32 + fairProbs_exact c R16
                  + fairProbs_exact c QF)))
      else Fin 0)"
  by (simp add: stageOdds_at_def stageOdds_def STAGES_def Let_def jgt_def jsub_Fin
      elimProbs_no_overflow [OF assms])

lemma condProb_nonneg:
  assumes "odds_safe c" "s \<in> set STAGES"
  shows "jle (Fin 0) (condProb (stageOdds_at c s))"
  using assms(2)
  by (auto simp: STAGES_def condProb_Group [OF assms(1)] condProb_R32 [OF assms(1)]
       condProb_R16 [OF assms(1)] condProb_QF [OF assms(1)] condProb_SF [OF assms(1)]
       fairProbs_exact_nonneg)

lemma condProb_ordered:
  assumes v: "valid_odds c"
    and ij: "i < j" "j < length STAGES"
    and le: "bettingOdds c (STAGES ! j) \<le> bettingOdds c (STAGES ! i)"
  shows "jlt (condProb (stageOdds_at c (STAGES ! i))) (condProb (stageOdds_at c (STAGES ! j)))"
proof -
  note o = valid_odds_safe [OF v]
  have pos: "0 < fairProbs_exact c k" if "k \<in> set ALL_OUTCOMES" for k
    using fairProbs_exact_pos [OF v that] .
  have p: "0 < fairProbs_exact c Group" "0 < fairProbs_exact c R32" "0 < fairProbs_exact c R16"
    "0 < fairProbs_exact c QF" "0 < fairProbs_exact c SF" "0 < fairProbs_exact c RunnerUp"
    "0 < fairProbs_exact c Winner"
    by (simp_all add: pos ALL_OUTCOMES_def STAGES_def)
  have s: "fairProbs_exact c Group + fairProbs_exact c R32 + fairProbs_exact c R16
     + fairProbs_exact c QF + fairProbs_exact c SF + fairProbs_exact c RunnerUp
     + fairProbs_exact c Winner = 100"
    using sum_list_fairProbs_exact [OF totalImplied_exact_pos [OF v]]
    by (simp add: fairProbs_exact_unfold_sum)
  have mono: "fairProbs_exact c (STAGES ! i) \<le> fairProbs_exact c (STAGES ! j)"
    using ij by (intro fairProbs_exact_mono_odds [OF v _ _ le]) (simp_all add: ALL_OUTCOMES_def)
  have pairs: "(i, j) \<in> {(0, 1), (0, 2), (0, 3), (0, 4), (1, 2), (1, 3), (1, 4), (2, 3), (2, 4), (3, 4)}"
    using ij by (auto simp: STAGES_def less_Suc_eq eval_nat_numeral)
  have lt: "fairProbs_exact c Group < 100" "fairProbs_exact c Group + fairProbs_exact c R32 < 100"
    "fairProbs_exact c Group + fairProbs_exact c R32 + fairProbs_exact c R16 < 100"
    "fairProbs_exact c Group + fairProbs_exact c R32 + fairProbs_exact c R16
       + fairProbs_exact c QF < 100"
    using p s by linarith+
  from pairs mono p lt show ?thesis
    by (auto simp: STAGES_def condProb_Group [OF o] condProb_R32 [OF o] condProb_R16 [OF o]
          condProb_QF [OF o] condProb_SF [OF o] intro!: frac_less_real frac_less_real_100)
qed

text \<open>
  Claim C5, as amended. For every valid odds set (all seven decimal odds greater than 1),
  the conditional elimination probability of each stage is non-negative. The
  probabilities are not ordered along the stages in general: when all seven odds are
  greater than 1 and at most \<open>10\<^sup>6\<close>, a later stage has a strictly higher conditional
  elimination probability than an earlier stage whenever its decimal odds are no longer
  than the earlier stage's (its fair probability is no smaller).
\<close>

theorem condProb_nonneg_ordered:
  "(valid_odds c \<and> s \<in> set STAGES \<longrightarrow> jle (Fin 0) (condProb (stageOdds_at c s)))
   \<and> (moderate_odds c \<and> i < j \<and> j < length STAGES
        \<and> bettingOdds c (STAGES ! j) \<le> bettingOdds c (STAGES ! i)
      \<longrightarrow> jlt (condProb (stageOdds_at c (STAGES ! i))) (condProb (stageOdds_at c (STAGES ! j))))"
  using condProb_nonneg [OF valid_odds_safe] condProb_ordered [OF moderate_odds_valid] by blast

lemma moderate_odds_DEFAULTS: "moderate_odds DEFAULTS"
  by (simp add: moderate_odds_def ALL_OUTCOMES_def STAGES_def DEFAULTS_def)

text \<open>
  The default odds: the round of 16 (odds 4.0) comes after the round of 32 (odds 4.3) and
  has the higher conditional elimination probability.
\<close>

theorem condProb_nonneg_ordered_witness:
  "moderate_odds DEFAULTS
   \<and> jle (Fin 0) (condProb (stageOdds_at DEFAULTS R32))
   \<and> jlt (condProb (stageOdds_at DEFAULTS R32)) (condProb (stageOdds_at DEFAULTS R16))"
proof -
  have o: "bettingOdds DEFAULTS (STAGES ! 2) \<le> bettingOdds DEFAULTS (STAGES ! 1)"
    by (simp add: STAGES_def DEFAULTS_def)
  have m: "R32 \<in> set STAGES" "(1::nat) < 2" "2 < length STAGES" "STAGES ! 1 = R32" "STAGES ! 2 = R16"
    by (simp_all add: STAGES_def)
  show ?thesis
    using condProb_nonneg_ordered [of DEFAULTS R32 1 2] valid_odds_DEFAULTS moderate_odds_DEFAULTS
      o m
    by simp
qed

lemma moderate_odds_group_favourite: "moderate_odds cfg_group_favourite"
  by (simp add: moderate_odds_def ALL_OUTCOMES_def STAGES_def cfg_group_favourite_def)

text \<open>
  Claim C5 as stated fails when an early stage is the likely one. With even odds for the
  group stage and odds of 12 for every other outcome, the fair probabilities are 50 and
  six times 100/12; the group stage has conditional probability \<open>50/100 = 1/2\<close>, and the
  round of 32 has \<open>(100/12) / (100 - 50) = 1/6\<close>, which is lower.
\<close>

theorem condProb_ordered_counterexample:
  "condProb (stageOdds_at cfg_group_favourite Group) = Fin (1 / 2)
   \<and> condProb (stageOdds_at cfg_group_favourite R32) = Fin (1 / 6)
   \<and> \<not> jlt (condProb (stageOdds_at cfg_group_favourite Group))
          (condProb (stageOdds_at cfg_group_favourite R32))"
proof -
  note o = valid_odds_safe [OF moderate_odds_valid [OF moderate_odds_group_favourite]]
  have f: "fairProbs_exact cfg_group_favourite Group = 50"
    "fairProbs_exact cfg_group_favourite R32 = 100 / 12"
    by (simp_all add: fairProbs_exact_def totalImplied_exact_unfold impliedProbs_exact_def
        cfg_group_favourite_def)
  show ?thesis by (simp add: condProb_Group [OF o] condProb_R32 [OF o] f)
qed

section \<open>Scenario probabilities\<close>

lemma scen_nth_elim: "k < length STAGES \<Longrightarrow> scenarios c ! k = elim_scenario c k"
  by (simp add: scenarios_def nth_append)

lemma scen_nth_finals: "scenarios c ! length STAGES = finals_scenario c"
  by (simp add: scenarios_def nth_append)

lemma length_scenarios: "length (scenarios c) = 6"
  by (simp add: scenarios_def STAGES_def)

lemma map_probability:
  "map probability (scenarios c) = map (elimProbs c) STAGES @ [probFinals c]"
  by (simp add: scenarios_def elim_scenario_def finals_scenario_def Let_def STAGES_def upt_rec)

lemma scenario_probabilities_no_overflow:
  assumes "odds_safe c"
  shows "js_sum (map probability (scenarios c))
       = Fin (sum_list (map (fairProbs_exact c) ALL_OUTCOMES))"
  by (simp add: map_probability probFinals_def elimProbs_def ALL_OUTCOMES_def STAGES_def
      fairProbs_no_overflow [OF assms] js_sum_def)

text \<open>
  Claim C7, as amended. For every valid odds set (all seven decimal odds greater than 1),
  the probabilities of the six scenarios (the fair probability of each elimination stage,
  and the sum of the fair probabilities of runner-up and winner for the final) sum to 100
  within \<open>10\<^sup>-\<^sup>9\<close>.
\<close>

theorem scenario_probabilities_sum:
  assumes "valid_odds c"
  shows "within_tol (1 / 10 ^ 9) 100 (js_sum (map probability (scenarios c)))"
  by (simp add: scenario_probabilities_no_overflow [OF valid_odds_safe [OF assms]]
      sum_list_fairProbs_exact [OF totalImplied_exact_pos [OF assms]] within_tol_def)

text \<open>The default odds are valid, and the six scenario probabilities sum to 100.\<close>

theorem scenario_probabilities_sum_witness:
  "valid_odds DEFAULTS
   \<and> within_tol (1 / 10 ^ 9) 100 (js_sum (map probability (scenarios DEFAULTS)))"
  using scenario_probabilities_sum [OF valid_odds_DEFAULTS] valid_odds_DEFAULTS by simp

lemma odds_safe_zero: "odds_safe cfg_zero_odds"
  by (simp add: odds_safe_def ALL_OUTCOMES_def STAGES_def cfg_zero_odds_def)

text \<open>
  Claim C7 as stated, for any input, fails on an odds table of zeros: no odds are positive,
  every implied probability is 0, the total is 0, every fair probability takes the
  \<open>totalImplied > 0\<close> guard's other branch and is 0, and the six scenario probabilities
  sum to 0.
\<close>

theorem scenario_probabilities_counterexample:
  "js_sum (map probability (scenarios cfg_zero_odds)) = Fin 0
   \<and> \<not> within_tol (1 / 10 ^ 9) 100 (js_sum (map probability (scenarios cfg_zero_odds)))"
proof -
  have "sum_list (map (fairProbs_exact cfg_zero_odds) ALL_OUTCOMES) = 0"
    by (simp add: fairProbs_exact_def totalImplied_exact_unfold impliedProbs_exact_def
        cfg_zero_odds_def ALL_OUTCOMES_def STAGES_def)
  then have "js_sum (map probability (scenarios cfg_zero_odds)) = Fin 0"
    by (simp only: scenario_probabilities_no_overflow [OF odds_safe_zero])
  then show ?thesis by (simp add: within_tol_def)
qed
section \<open>The IRR solver on a single outflow\<close>

lemma irr_loop_single_outflow:
  "irr_loop single_outflow tol n (Fin (1 / 100)) = Fin (((101 / 100) ^ 12 - 1) * 100)"
  by (cases n) (simp_all add: single_outflow_def annualize_def npv_def dnpv_def jsub_def)

text \<open>
  Claim C2, as amended. On the cash flows \<open>[(0, -1000)]\<close> the solver does not raise and stops
  in its first iteration, whatever the iteration bound and the tolerance: the derivative
  is 0 there, the loop is left by its \<open>|df| < 10\<^sup>-\<^sup>1\<^sup>4\<close> guard, and the result is the annualized
  starting rate \<open>r = 0.01\<close>, that is \<open>(1.01\<^sup>1\<^sup>2 - 1) \<times> 100\<close>, about 12.68, and not the
  \<open>-100\<close> sentinel.
\<close>

theorem calculateIRR_single_outflow:
  "calculateIRR_with single_outflow maxIter tol = Fin (((101 / 100) ^ 12 - 1) * 100)
   \<and> calculateIRR single_outflow = Fin (((101 / 100) ^ 12 - 1) * 100)"
  by (simp add: calculateIRR_def calculateIRR_with_def irr_loop_single_outflow)

text \<open>
  Claim C2 as stated fails: the value returned for \<open>[(0, -1000)]\<close> is not the \<open>-100\<close>
  sentinel. At \<open>r = 0.01\<close>, \<open>npv = -1000 / 1.01\<^sup>0 = -1000\<close> and
  \<open>dnpv = (-0 \<times> -1000) / 1.01\<^sup>1 = 0\<close>, so the loop breaks before any update of \<open>r\<close>.
\<close>

theorem calculateIRR_single_outflow_counterexample:
  "calculateIRR single_outflow \<noteq> Fin (- 100)"
  by (simp add: calculateIRR_def calculateIRR_with_def irr_loop_single_outflow)

section \<open>Carrying costs as finite numbers\<close>

lemma carry_term_Fin:
  assumes "- 100 \<le> annualOpportunityCost c"
  shows "jmul (Fin (hedgeStakes c s))
           (jsub (jpow (Fin (1 + annualOpportunityCost c / 100))
                    ((proceedsMonth - hedgeMonths s) / 12))
              (Fin 1))
         = Fin (hedgeStakes c s *
             ((1 + annualOpportunityCost c / 100) powr ((proceedsMonth - hedgeMonths s) / 12) - 1))"
proof -
  have "0 < (proceedsMonth - hedgeMonths s) / 12"
    by (cases s) (simp_all add: proceedsMonth_def hedgeMonths_def)
  moreover have "0 \<le> 1 + annualOpportunityCost c / 100" using assms by simp
  ultimately show ?thesis by (simp add: jsub_Fin jpow_nonneg_base del: jpow.simps)
qed

lemma hedgeCarry_Fin:
  assumes "- 100 \<le> annualOpportunityCost c"
  shows "\<exists>h. hedgeCarryCostPerStage c stages = Fin h"
proof (cases "hedgeEnabled c")
  case False
  then show ?thesis by (simp add: hedgeCarryCostPerStage_def)
next
  case True
  then have "hedgeCarryCostPerStage c stages =
      foldl (\<lambda>sum s. jadd sum (Fin (hedgeStakes c s *
             ((1 + annualOpportunityCost c / 100) powr ((proceedsMonth - hedgeMonths s) / 12) - 1))))
        (Fin 0) stages"
    by (simp add: hedgeCarryCostPerStage_def Let_def carry_term_Fin [OF assms]
        del: jmul.simps jpow.simps)
  then show ?thesis by (simp add: foldl_jadd_Fin)
qed

lemma carryingCost_Fin:
  assumes "- 100 \<le> annualOpportunityCost c"
  shows "\<exists>k. carryingCost c = Fin k"
proof -
  have "0 \<le> 1 + annualOpportunityCost c / 100" using assms by simp
  then show ?thesis
    by (simp add: carryingCost_def proceedsMonth_def jsub_Fin)
qed

text \<open>With no opportunity cost nothing is charged for carrying.\<close>

lemma carryingCost_no_interest: "annualOpportunityCost c = 0 \<Longrightarrow> carryingCost c = Fin 0"
  by (simp add: carryingCost_def proceedsMonth_def jsub_Fin)

lemma hedgeCarry_no_interest:
  assumes a: "annualOpportunityCost c = 0"
  shows "hedgeCarryCostPerStage c stages = Fin 0"
proof -
  have "foldl (\<lambda>sum s. jadd sum (Fin 0)) (Fin 0) stages = Fin 0"
    by (induction stages) simp_all
  moreover have "(\<lambda>sum s.
             let carryPeriod = proceedsMonth - hedgeMonths s
             in jadd sum (jmul (Fin (hedgeStakes c s))
                  (jsub (jpow (Fin (1 + annualOpportunityCost c / 100)) (carryPeriod / 12))
                     (Fin 1)))) = (\<lambda>sum s. jadd sum (Fin 0))"
    by (intro ext) (simp add: a jsub_Fin Let_def)
  ultimately show ?thesis by (simp add: hedgeCarryCostPerStage_def)
qed

section \<open>Elimination scenarios with hedging\<close>

lemma sumStakes_sum_list: "sumStakes c xs = sum_list (map (hedgeStakes c) xs)"
  by (simp add: sumStakes_def foldl_add_sum_list)

lemma adjustedOdds_Group_no_interest:
  "adjustedOdds (stageOdds_at cfg_no_interest Group) = Fin 31"
proof -
  have o: "odds_safe cfg_no_interest"
    by (simp add: odds_safe_def ALL_OUTCOMES_def STAGES_def cfg_no_interest_def DEFAULTS_def)
  have T: "totalImplied_exact cfg_no_interest = 15194875 / 131967"
    by (simp add: totalImplied_exact_unfold impliedProbs_exact_def cfg_no_interest_def
        DEFAULTS_def)
  have p: "fairProbs_exact cfg_no_interest Group = 340560 / 121559"
    by (simp add: fairProbs_exact_def T) (simp add: impliedProbs_exact_def cfg_no_interest_def
        DEFAULTS_def)
  have v: "vigFactor cfg_no_interest = Fin (527868 / 607795)"
    by (simp add: vigFactor_def totalImplied_no_overflow [OF o] T jgt_def ovf_Fin)
  show ?thesis
    by (simp add: stageOdds_at_def stageOdds_def STAGES_def Let_def jgt_def jsub_Fin
        elimProbs_no_overflow [OF o] p v ovf_Fin)
qed

lemma cfg_no_interest_fields:
  "annualOpportunityCost cfg_no_interest = 0" "hedgeEnabled cfg_no_interest"
  "pricePerTicket cfg_no_interest = 4185" "numTickets cfg_no_interest = 2"
  "hedgeStakes cfg_no_interest Group = 25"
  by (simp_all add: cfg_no_interest_def DEFAULTS_def)

text \<open>
  Claim C1, as amended. For every configuration with hedging enabled and every elimination
  stage \<open>k\<close>, the net result of the stage-\<open>k\<close> scenario is the full reimbursement (price per
  ticket times the number of tickets, no fees) minus the purchase cost, minus the base
  carrying cost, minus the carrying cost of the hedges placed up to and including \<open>k\<close>, plus
  a hedge result equal to the winning payout \<open>stake\<^sub>k \<times> adjustedOdds\<^sub>k\<close> minus the stakes
  placed at the stages up to and including \<open>k\<close>: the winning stake is part of the payout,
  so the hedge result counts the winning bet's net profit \<open>stake\<^sub>k \<times> (adjustedOdds\<^sub>k - 1)\<close>
  and subtracts the stakes forfeited before \<open>k\<close>.
\<close>

theorem elim_netPL_formula:
  assumes "hedgeEnabled c" and "k < length STAGES"
  shows "netPL (scenarios c ! k) =
     jadd (jsub (jsub (jsub (Fin (pricePerTicket c * numTickets c)) (Fin (totalPurchase c)))
                   (carryingCost c))
             (hedgeCarryCostPerStage c (take (Suc k) STAGES)))
       (jsub (jmul (Fin (hedgeStakes c (STAGES ! k))) (adjustedOdds (stageOdds_at c (STAGES ! k))))
          (Fin (sum_list (map (hedgeStakes c) (take (Suc k) STAGES)))))"
  using assms
  by (simp add: scen_nth_elim elim_scenario_def Let_def winningStake_def winningOdds_def
      lostStakes_def sumStakes_sum_list net_profit_as_payout sum_take_Suc jsub_Fin
      del: jmul.simps)

text \<open>
  The defaults without opportunity cost, elimination in the group stage: the stake of 25
  at adjusted odds 31 pays 775, of which 750 is the result.
\<close>

theorem elim_netPL_formula_witness:
  "hedgeEnabled cfg_no_interest \<and> 0 < length STAGES
   \<and> netPL (scenarios cfg_no_interest ! 0) = Fin 750"
proof -
  note f = cfg_no_interest_fields
  have k: "(0::nat) < length STAGES" by (simp add: STAGES_def)
  have "netPL (scenarios cfg_no_interest ! 0) = Fin 750"
    using elim_netPL_formula [OF f(2) k]
    by (simp add: STAGES_def carryingCost_no_interest [OF f(1)] hedgeCarry_no_interest [OF f(1)]
        adjustedOdds_Group_no_interest f totalPurchase_def jsub_Fin)
  then show ?thesis using f(2) k by simp
qed

text \<open>
  Claim C1 as stated fails by the winning stake. For the defaults without opportunity cost
  and elimination in the group stage, the code computes \<open>8370 - 8370 - 0 - 0 + 25 \<times> (31 - 1)
  = 750\<close>, while the formula of the claim, whose hedge result is the whole payout
  \<open>25 \<times> 31\<close>, gives 775.
\<close>

theorem elim_netPL_counterexample:
  "netPL (scenarios cfg_no_interest ! 0) = Fin 750 \<and> spec_elim_netPL cfg_no_interest 0 = Fin 775"
proof -
  note f = cfg_no_interest_fields
  have "netPL (scenarios cfg_no_interest ! 0) = Fin 750"
    by (simp add: scenarios_def STAGES_def upt_rec elim_scenario_def Let_def
       carryingCost_no_interest [OF f(1)] hedgeCarry_no_interest [OF f(1)]
       winningStake_def winningOdds_def lostStakes_def sumStakes_def
       adjustedOdds_Group_no_interest f totalPurchase_def jsub_Fin)
  moreover have "spec_elim_netPL cfg_no_interest 0 = Fin 775"
    by (simp add: spec_elim_netPL_def spec_hedgeResult_def STAGES_def
        carryingCost_no_interest [OF f(1)] hedgeCarry_no_interest [OF f(1)]
        adjustedOdds_Group_no_interest f totalPurchase_def jsub_Fin)
  ultimately show ?thesis by simp
qed

section \<open>Scenarios with hedging disabled\<close>

lemma elim_disabled:
  assumes "\<not> hedgeEnabled c"
  shows "hedgeResult (elim_scenario c i) = Fin 0"
    and "hCarryCost (elim_scenario c i) = Fin 0"
    and "totalStakePlaced (elim_scenario c i) = 0"
    and "elim_cashFlows c i = [\<lparr>month = 0, amount = Fin (- totalPurchase c)\<rparr>,
           \<lparr>month = proceedsMonth, amount = Fin (pricePerTicket c * numTickets c)\<rparr>]"
    and "netPL (elim_scenario c i) =
           jsub (Fin (pricePerTicket c * numTickets c - totalPurchase c)) (carryingCost c)"
  using assms
  by (simp_all add: elim_scenario_def elim_cashFlows_def hedgeOutflows_def Let_def
      hedgeCarryCostPerStage_def jsub_zero_right jadd_zero_right)

lemma finals_disabled:
  assumes "\<not> hedgeEnabled c"
  shows "hedgeResult (finals_scenario c) = Fin 0"
    and "hCarryCost (finals_scenario c) = Fin 0"
    and "totalStakePlaced (finals_scenario c) = 0"
    and "finals_cashFlows c = [\<lparr>month = 0, amount = Fin (- totalPurchase c)\<rparr>,
           \<lparr>month = proceedsMonth, amount = Fin (netProceeds (finals_scenario c))\<rparr>]"
    and "netPL (finals_scenario c) =
           jsub (Fin (netProceeds (finals_scenario c) - totalPurchase c)) (carryingCost c)"
  using assms
  by (simp_all add: finals_scenario_def finals_cashFlows_def finals_netProceeds_def
      hedgeOutflows_def Let_def hedgeCarryCostPerStage_def hedgeResultFinals_def allStakes_def
      jsub_zero_right jadd_zero_right)

lemma elim_base_fields:
  "grossProceeds (elim_scenario c i) = pricePerTicket c * numTickets c"
  "netProceeds (elim_scenario c i) = pricePerTicket c * numTickets c"
  "resaleFee (elim_scenario c i) = 0"
  "processingFee (elim_scenario c i) = 0"
  "totalFees (elim_scenario c i) = 0"
  "probability (elim_scenario c i) = fairProbs c (STAGES ! i)"
  "roi (elim_scenario c i) = calculateIRR (elim_cashFlows c i)"
  "\<not> isFinals (elim_scenario c i)"
  by (simp_all add: elim_scenario_def elimProbs_def Let_def)

lemma finals_base_fields:
  "grossProceeds (finals_scenario c) = expectedResale c * numTickets c"
  "resaleFee (finals_scenario c) = expectedResale c * numTickets c * (resaleFeePercent c / 100)"
  "processingFee (finals_scenario c) =
     expectedResale c * numTickets c * (processingFeePercent c / 100)"
  "totalFees (finals_scenario c) =
     resaleFee (finals_scenario c) + processingFee (finals_scenario c) + fixedTransactionCost c"
  "netProceeds (finals_scenario c) = grossProceeds (finals_scenario c) - totalFees (finals_scenario c)"
  "probability (finals_scenario c) = jadd (fairProbs c RunnerUp) (fairProbs c Winner)"
  "roi (finals_scenario c) = calculateIRR (finals_cashFlows c)"
  "isFinals (finals_scenario c)"
  by (simp_all add: finals_scenario_def probFinals_def Let_def)

text \<open>
  Claim C9. With hedging disabled, each of the six scenarios has a hedge result of 0, a
  hedge carrying cost of 0 and a total stake placed of 0; the cash flows handed to the IRR
  solver are the purchase outflow at month 0 and the proceeds at the sale month, and
  nothing else; and the other fields are those of the purchase, reimbursement and resale
  alone: the elimination scenarios are reimbursed the purchase price without fees, the
  final sells at the expected resale price less the two percentage fees and the fixed
  cost, and the net result is the net proceeds minus the purchase cost minus the base
  carrying cost.
\<close>

theorem hedge_disabled_frame:
  assumes off: "\<not> hedgeEnabled c" and i: "i < length (scenarios c)"
  shows "hedgeResult (scenarios c ! i) = Fin 0
    \<and> hCarryCost (scenarios c ! i) = Fin 0
    \<and> totalStakePlaced (scenarios c ! i) = 0
    \<and> scenario_cashFlows c i =
        [\<lparr>month = 0, amount = Fin (- totalPurchase c)\<rparr>,
         \<lparr>month = proceedsMonth, amount = Fin (netProceeds (scenarios c ! i))\<rparr>]
    \<and> roi (scenarios c ! i) = calculateIRR (scenario_cashFlows c i)
    \<and> netPL (scenarios c ! i) =
        jsub (Fin (netProceeds (scenarios c ! i) - totalPurchase c)) (carryingCost c)
    \<and> isFinals (scenarios c ! i) = (i = length STAGES)
    \<and> probability (scenarios c ! i) =
        (if isFinals (scenarios c ! i) then jadd (fairProbs c RunnerUp) (fairProbs c Winner)
         else fairProbs c (STAGES ! i))
    \<and> grossProceeds (scenarios c ! i) =
        (if isFinals (scenarios c ! i) then expectedResale c else pricePerTicket c) * numTickets c
    \<and> resaleFee (scenarios c ! i) =
        (if isFinals (scenarios c ! i)
         then grossProceeds (scenarios c ! i) * (resaleFeePercent c / 100) else 0)
    \<and> processingFee (scenarios c ! i) =
        (if isFinals (scenarios c ! i)
         then grossProceeds (scenarios c ! i) * (processingFeePercent c / 100) else 0)
    \<and> totalFees (scenarios c ! i) =
        (if isFinals (scenarios c ! i)
         then resaleFee (scenarios c ! i) + processingFee (scenarios c ! i)
              + fixedTransactionCost c
         else 0)
    \<and> netProceeds (scenarios c ! i) = grossProceeds (scenarios c ! i) - totalFees (scenarios c ! i)"
proof (cases "i < length STAGES")
  case True
  then have s: "scenarios c ! i = elim_scenario c i" by (rule scen_nth_elim)
  show ?thesis
    unfolding s using True
    by (simp add: elim_disabled [OF off] elim_base_fields scenario_cashFlows_def)
next
  case False
  then have "i = length STAGES" using i by (simp add: scenarios_def)
  then have s: "scenarios c ! i = finals_scenario c" "\<not> i < length STAGES" "i = length STAGES"
    by (simp_all add: scen_nth_finals)
  show ?thesis
    unfolding s(1)
    by (simp add: finals_disabled [OF off] finals_base_fields scenario_cashFlows_def s(2,3))
qed

text \<open>
  The defaults with hedging switched off: the final (position 5) sells two tickets at
  10000 less 18%, and the round of 16 (position 2) is reimbursed the 8370 paid.
\<close>

theorem hedge_disabled_frame_witness:
  "\<not> hedgeEnabled cfg_no_hedge \<and> 5 < length (scenarios cfg_no_hedge)
   \<and> hedgeResult (scenarios cfg_no_hedge ! 5) = Fin 0
   \<and> hCarryCost (scenarios cfg_no_hedge ! 5) = Fin 0
   \<and> totalStakePlaced (scenarios cfg_no_hedge ! 5) = 0
   \<and> scenario_cashFlows cfg_no_hedge 5 =
        [\<lparr>month = 0, amount = Fin (- 8370)\<rparr>, \<lparr>month = 55 / 10, amount = Fin 16400\<rparr>]
   \<and> scenario_cashFlows cfg_no_hedge 2 =
        [\<lparr>month = 0, amount = Fin (- 8370)\<rparr>, \<lparr>month = 55 / 10, amount = Fin 8370\<rparr>]"
proof -
  have off: "\<not> hedgeEnabled cfg_no_hedge" by (simp add: cfg_no_hedge_def DEFAULTS_def)
  have i: "5 < length (scenarios cfg_no_hedge)" "2 < length (scenarios cfg_no_hedge)"
    by (simp_all add: length_scenarios)
  have f: "isFinals (scenarios cfg_no_hedge ! 5)" "\<not> isFinals (scenarios cfg_no_hedge ! 2)"
    by (simp_all add: scenarios_def STAGES_def nth_append finals_base_fields elim_base_fields)
  have n5: "netProceeds (scenarios cfg_no_hedge ! 5) = 16400"
    using hedge_disabled_frame [OF off i(1)] f(1)
    by (simp add: STAGES_def) (simp add: cfg_no_hedge_def DEFAULTS_def)
  have n2: "netProceeds (scenarios cfg_no_hedge ! 2) = 8370"
    using hedge_disabled_frame [OF off i(2)] f(2)
    by (simp add: STAGES_def) (simp add: cfg_no_hedge_def DEFAULTS_def)
  have tp: "totalPurchase cfg_no_hedge = 8370"
    by (simp add: totalPurchase_def cfg_no_hedge_def DEFAULTS_def)
  show ?thesis
    using hedge_disabled_frame [OF off i(1)] hedge_disabled_frame [OF off i(2)] off i(1)
    by (simp add: n5 n2 tp proceedsMonth_def)
qed


section \<open>Breakeven: fee rates and the expected resale price\<close>

lemma carryingCost_value:
  assumes "- 100 \<le> annualOpportunityCost c"
  shows "carryingCost c =
     Fin (totalPurchase c * ((1 + annualOpportunityCost c / 100) powr (proceedsMonth / 12) - 1))"
proof -
  have "0 \<le> 1 + annualOpportunityCost c / 100" using assms by simp
  then show ?thesis
    by (simp add: carryingCost_def proceedsMonth_def jsub_Fin)
qed

lemma hedgeCarry_value:
  assumes "- 100 \<le> annualOpportunityCost c"
  shows "hedgeCarryCostPerStage c stages =
     Fin (if hedgeEnabled c
          then sum_list (map (\<lambda>s. hedgeStakes c s *
                 ((1 + annualOpportunityCost c / 100) powr ((proceedsMonth - hedgeMonths s) / 12) - 1))
                 stages)
          else 0)"
proof (cases "hedgeEnabled c")
  case False
  then show ?thesis by (simp add: hedgeCarryCostPerStage_def)
next
  case True
  then have "hedgeCarryCostPerStage c stages =
      foldl (\<lambda>sum s. jadd sum (Fin (hedgeStakes c s *
             ((1 + annualOpportunityCost c / 100) powr ((proceedsMonth - hedgeMonths s) / 12) - 1))))
        (Fin 0) stages"
    by (simp add: hedgeCarryCostPerStage_def Let_def carry_term_Fin [OF assms]
        del: jmul.simps jpow.simps)
  then show ?thesis using True by (simp add: foldl_jadd_Fin)
qed

lemma growth_ge_1:
  assumes "0 \<le> annualOpportunityCost c" "0 \<le> e"
  shows "1 \<le> (1 + annualOpportunityCost c / 100) powr e"
  using assms by (intro ge_one_powr_ge_zero) simp_all

lemma targetNet_positive:
  assumes "ordinary_purchase c"
  shows "\<exists>t. targetNet c = Fin t \<and> 0 < t"
proof -
  have n: "1 \<le> numTickets c" "1 / 100 \<le> pricePerTicket c" and a: "0 \<le> annualOpportunityCost c"
    and st: "\<And>s. s \<in> set STAGES \<Longrightarrow> 0 \<le> hedgeStakes c s"
    using assms by (simp_all add: ordinary_purchase_def list_all_iff)
  have a': "- 100 \<le> annualOpportunityCost c" using a by simp
  have "1 / 100 \<le> pricePerTicket c * 1" using n by simp
  also have "\<dots> \<le> pricePerTicket c * numTickets c"
    using n by (intro mult_left_mono) simp_all
  finally have tp: "1 / 100 \<le> totalPurchase c" by (simp add: totalPurchase_def mult.commute)
  have k: "0 \<le> totalPurchase c * ((1 + annualOpportunityCost c / 100) powr (proceedsMonth / 12) - 1)"
    using tp growth_ge_1 [OF a, of "proceedsMonth / 12"] by (simp add: proceedsMonth_def)
  have nn: "0 \<le> hedgeStakes c s *
      ((1 + annualOpportunityCost c / 100) powr ((proceedsMonth - hedgeMonths s) / 12) - 1)"
    if "s \<in> set STAGES" for s
  proof -
    have "0 \<le> (proceedsMonth - hedgeMonths s) / 12"
      by (cases s) (simp_all add: proceedsMonth_def hedgeMonths_def)
    then show ?thesis using st [OF that] growth_ge_1 [OF a] by simp
  qed
  have h: "0 \<le> (if hedgeEnabled c
          then sum_list (map (\<lambda>s. hedgeStakes c s *
                 ((1 + annualOpportunityCost c / 100) powr ((proceedsMonth - hedgeMonths s) / 12) - 1))
                 STAGES)
          else 0)"
    using nn by (auto intro!: sum_list_nonneg)
  have "0 \<le> sum_list (map (hedgeStakes c) STAGES)"
    using st by (auto intro!: sum_list_nonneg)
  then have r: "hedgeResultFinals c \<le> 0"
    by (simp add: hedgeResultFinals_def allStakes_def sumStakes_sum_list)
  show ?thesis
    using tp k h r
    by (simp add: targetNet_def carryingCost_value [OF a'] hedgeCarry_value [OF a'] jsub_Fin)
qed

text \<open>
  Claim C3, as amended. The breakeven computation has no domain check and reports no
  error: when the two fee percentages, each between 0 and 1000, sum to 100.001 or more,
  for a purchase with nothing negative in it and amounts of at most \<open>10\<^sup>9\<close>, the quotient is
  returned as it comes, a finite negative price.
\<close>

theorem breakEven_fees_above_100:
  assumes b: "bounded_amounts c" and o: "ordinary_purchase c"
    and r: "0 \<le> resaleFeePercent c" "resaleFeePercent c \<le> 1000"
    and p: "0 \<le> processingFeePercent c" "processingFeePercent c \<le> 1000"
    and fee: "100 + 1 / 1000 \<le> resaleFeePercent c + processingFeePercent c"
  shows "\<exists>x. breakEvenResale c = Fin x \<and> x < 0"
proof -
  obtain t where t: "targetNet c = Fin t" "0 < t" using targetNet_positive [OF o] by blast
  have n: "0 < numTickets c" and f: "0 \<le> fixedTransactionCost c"
    using o by (simp_all add: ordinary_purchase_def)
  have "netFeeRate c < 0" using fee by (simp add: netFeeRate_def field_simps)
  then have neg: "numTickets c * netFeeRate c < 0" using n by (simp add: mult_pos_neg)
  have "0 < t + fixedTransactionCost c" using t(2) f by simp
  then have "(t + fixedTransactionCost c) / (numTickets c * netFeeRate c) < 0"
    using neg by (simp add: divide_pos_neg)
  moreover have "breakEvenResale c
      = Fin ((t + fixedTransactionCost c) / (numTickets c * netFeeRate c))"
    unfolding breakEvenResale_def t jadd.simps
    by (rule jdiv_Fin_nonzero) (use neg in linarith)
  ultimately show ?thesis by blast
qed

lemma targetNet_fees_110: "targetNet cfg_fees_110 = Fin 13495"
  by (simp add: targetNet_def carryingCost_no_interest hedgeCarry_no_interest cfg_fees_110_def
      DEFAULTS_def totalPurchase_def hedgeResultFinals_def allStakes_def sumStakes_def STAGES_def
      jsub_Fin)

text \<open>The defaults with fees of 110% and no opportunity cost.\<close>

theorem breakEven_fees_above_100_witness:
  "bounded_amounts cfg_fees_110 \<and> ordinary_purchase cfg_fees_110
   \<and> 100 + 1 / 1000 \<le> resaleFeePercent cfg_fees_110 + processingFeePercent cfg_fees_110
   \<and> (\<exists>x. breakEvenResale cfg_fees_110 = Fin x \<and> x < 0)"
proof -
  have b: "bounded_amounts cfg_fees_110"
    by (simp add: bounded_amounts_def STAGES_def cfg_fees_110_def DEFAULTS_def)
  have o: "ordinary_purchase cfg_fees_110"
    by (simp add: ordinary_purchase_def STAGES_def cfg_fees_110_def DEFAULTS_def)
  have f: "0 \<le> resaleFeePercent cfg_fees_110" "resaleFeePercent cfg_fees_110 \<le> 1000"
    "0 \<le> processingFeePercent cfg_fees_110" "processingFeePercent cfg_fees_110 \<le> 1000"
    "100 + 1 / 1000 \<le> resaleFeePercent cfg_fees_110 + processingFeePercent cfg_fees_110"
    by (simp_all add: cfg_fees_110_def DEFAULTS_def)
  show ?thesis using breakEven_fees_above_100 [OF b o f] b o f(5) by blast
qed

text \<open>
  Claim C3 as stated fails: with fees of 60% and 50% (and no opportunity cost) the net fee
  rate is \<open>-0.1\<close>, the target is \<open>8370 + 5125 = 13495\<close>, and the breakeven price comes out as
  the number \<open>13495 / (2 \<times> -0.1) = -67475\<close>, with no error condition.
\<close>

theorem breakEven_counterexample:
  "100 \<le> resaleFeePercent cfg_fees_110 + processingFeePercent cfg_fees_110
   \<and> breakEvenResale cfg_fees_110 = Fin (- 67475)"
  by (simp add: breakEvenResale_def targetNet_fees_110 netFeeRate_def)
     (simp add: cfg_fees_110_def DEFAULTS_def)

text \<open>
  Claim C10. The breakeven resale price does not depend on the expected resale price: two
  configurations that differ only in \<open>expectedResale\<close> have the same breakeven.
\<close>

theorem breakEven_independent_of_expectedResale:
  "breakEvenResale (c\<lparr>expectedResale := x\<rparr>) = breakEvenResale c"
  by (simp add: breakEvenResale_def targetNet_def netFeeRate_def totalPurchase_def
      carryingCost_def hedgeCarryCostPerStage_def hedgeResultFinals_def allStakes_def
      sumStakes_def)

section \<open>Sensitivity sweep\<close>

lemma sens_finals_Fin:
  assumes "- 100 \<le> annualOpportunityCost c"
  shows "\<exists>x. \<forall>p. finals (sens_point_at c p) = Fin (p * (numTickets c * netFeeRate c) - x)"
proof -
  obtain k where k: "carryingCost c = Fin k" using carryingCost_Fin [OF assms] by blast
  obtain h where h: "hedgeCarryCostPerStage c STAGES = Fin h"
    using hedgeCarry_Fin [OF assms] by blast
  have "finals (sens_point_at c p)
      = Fin (p * (numTickets c * netFeeRate c)
          - (fixedTransactionCost c + totalPurchase c + k + h - hedgeResultFinals c))" for p
    by (simp add: sens_point_at_def Let_def k h jsub_Fin algebra_simps)
  then show ?thesis by blast
qed

lemma price_sens_point_at: "price (sens_point_at c p) = p"
  by (simp add: sens_point_at_def Let_def)

lemma sweep_head: "sweep 2000 = 2000 # 2500 # sweep 3000"
  by (simp add: sweep.simps [of 2000] sweep.simps [of 2500])

lemma sensitivityData_head:
  "sensitivityData c ! 0 = sens_point_at c 2000"
  "sensitivityData c ! Suc 0 = sens_point_at c 2500"
  by (simp_all add: sensitivityData_def sweep_head)

text \<open>
  Claim C8, as amended. With all inputs fixed, amounts of at most \<open>10\<^sup>9\<close>, a non-negative
  number of tickets, non-negative fee percentages that sum to at most 99.999 and an
  opportunity-cost rate of at least \<open>-100\<close>, the finals result of the sweep is
  non-decreasing in the swept price: for two points of the sweep with prices \<open>p1 \<le> p2\<close>,
  the finals result at \<open>p1\<close> is at most the one at \<open>p2\<close>.
\<close>

theorem sensitivity_finals_monotone:
  assumes b: "bounded_amounts c"
    and n: "0 \<le> numTickets c"
    and r: "0 \<le> resaleFeePercent c" "0 \<le> processingFeePercent c"
    and fee: "resaleFeePercent c + processingFeePercent c \<le> 100 - 1 / 1000"
    and a: "- 100 \<le> annualOpportunityCost c"
    and d: "d1 \<in> set (sensitivityData c)" "d2 \<in> set (sensitivityData c)"
    and le: "price d1 \<le> price d2"
  shows "jle (finals d1) (finals d2)"
proof -
  obtain p1 where p1: "d1 = sens_point_at c p1" using d(1) by (auto simp: sensitivityData_def)
  obtain p2 where p2: "d2 = sens_point_at c p2" using d(2) by (auto simp: sensitivityData_def)
  have "p1 \<le> p2" using le by (simp add: p1 p2 price_sens_point_at)
  moreover have "0 \<le> numTickets c * netFeeRate c"
    using n fee by (simp add: netFeeRate_def)
  ultimately have "p1 * (numTickets c * netFeeRate c) \<le> p2 * (numTickets c * netFeeRate c)"
    by (rule mult_right_mono)
  moreover obtain x
    where "\<forall>p. finals (sens_point_at c p) = Fin (p * (numTickets c * netFeeRate c) - x)"
    using sens_finals_Fin [OF a] by blast
  ultimately show ?thesis by (simp add: p1 p2)
qed

text \<open>The first two points of the sweep, at 2000 and 2500, for the defaults.\<close>

theorem sensitivity_finals_monotone_witness:
  "bounded_amounts DEFAULTS
   \<and> sens_point_at DEFAULTS 2000 \<in> set (sensitivityData DEFAULTS)
   \<and> sens_point_at DEFAULTS 2500 \<in> set (sensitivityData DEFAULTS)
   \<and> jle (finals (sens_point_at DEFAULTS 2000)) (finals (sens_point_at DEFAULTS 2500))"
proof -
  have b: "bounded_amounts DEFAULTS"
    by (simp add: bounded_amounts_def STAGES_def DEFAULTS_def)
  have h: "0 \<le> numTickets DEFAULTS"
    "0 \<le> resaleFeePercent DEFAULTS" "0 \<le> processingFeePercent DEFAULTS"
    "resaleFeePercent DEFAULTS + processingFeePercent DEFAULTS \<le> 100 - 1 / 1000"
    "- 100 \<le> annualOpportunityCost DEFAULTS"
    by (simp_all add: DEFAULTS_def)
  have m: "sens_point_at DEFAULTS 2000 \<in> set (sensitivityData DEFAULTS)"
    "sens_point_at DEFAULTS 2500 \<in> set (sensitivityData DEFAULTS)"
    by (simp_all add: sensitivityData_def sweep_head)
  have p: "price (sens_point_at DEFAULTS 2000) \<le> price (sens_point_at DEFAULTS 2500)"
    by (simp add: price_sens_point_at)
  show ?thesis using sensitivity_finals_monotone [OF b h m p] b m by simp
qed

text \<open>
  Claim C8 as stated fails when the fees exceed 100%: with the defaults and fees of 60% and
  50%, each ticket sold loses a tenth of its price, and the finals result at the first
  sweep price, 2000, is above the one at the second, 2500 (by \<open>500 \<times> 2 \<times> 0.1 = 100\<close>).
\<close>

theorem sensitivity_counterexample:
  "price (sensitivityData cfg_fees_110_interest ! 0) \<le> price (sensitivityData cfg_fees_110_interest ! 1)
   \<and> \<not> jle (finals (sensitivityData cfg_fees_110_interest ! 0))
          (finals (sensitivityData cfg_fees_110_interest ! 1))"
proof -
  have a: "- 100 \<le> annualOpportunityCost cfg_fees_110_interest"
    by (simp add: cfg_fees_110_interest_def DEFAULTS_def)
  obtain x where x: "\<forall>p. finals (sens_point_at cfg_fees_110_interest p)
      = Fin (p * (numTickets cfg_fees_110_interest * netFeeRate cfg_fees_110_interest) - x)"
    using sens_finals_Fin [OF a] by blast
  have r: "numTickets cfg_fees_110_interest * netFeeRate cfg_fees_110_interest = - 1 / 5"
    by (simp add: netFeeRate_def cfg_fees_110_interest_def DEFAULTS_def)
  show ?thesis by (simp add: sensitivityData_head x r price_sens_point_at)
qed

section \<open>Odds conversion: the round trip through decimal odds\<close>






end
